theory Spec2Isabelle
  imports Main
begin

section \<open>The BananaPass service worker (src/sw.js)\<close>

text \<open>
  The worker has three event handlers: \<open>install\<close> (pre-caches a fixed manifest),
  \<open>activate\<close> (deletes every cache whose name differs from \<open>CACHE_NAME\<close>) and
  \<open>fetch\<close> (cache first, then network, caching eligible network responses).
  Each handler is embedded as a function from the worker's surroundings (the network and
  the cache storage) to the handler's result and the surroundings afterwards. The
  install and activate handlers await every chain they start. The fetch handler starts
  one chain that it does not await, the \<open>cache.put\<close> of an eligible response:
  \<open>fetch_event\<close> is the handler up to the response it delivers and returns that chain
  as started, \<open>settle\<close> lets the chain run, and \<open>fetch_handler\<close> is the two in a row.
\<close>

subsection \<open>Data\<close>

text \<open>A \<open>Response\<close>: the fields the worker reads, and its payload.\<close>

record response =
  status :: nat
  rtype :: string
  body :: string

text \<open>\<open>event.request\<close>: the fields the worker reads.\<close>

record request =
  rmethod :: string
  url :: string

text \<open>
  What \<open>fetch(request)\<close> settles to. The promise rejects, or resolves with a value that
  the source guards with \<open>!networkResponse\<close> before reading it, so the resolved value is
  optional.
\<close>

datatype fetch_outcome = FetchRejected | FetchResolved "response option"

datatype settled = Fulfilled | Rejected

text \<open>A cache: its records in insertion order, keyed by request locator.\<close>

type_synonym cache = "(string \<times> response) list"

text \<open>\<open>CacheStorage\<close> (the global \<open>caches\<close>): the named caches in creation order.\<close>

type_synonym cache_storage = "(string \<times> cache) list"

text \<open>The console lines of the source, by kind.\<close>

datatype message =
    MsgInstall
  | MsgPrecaching
  | MsgPrecacheFailed
  | MsgActivate
  | MsgDeletingOld string
  | MsgFetchFailed string

text \<open>The effects a handler has on its surroundings, recorded in the order they start.\<close>

datatype effect =
    ConsoleLog message
  | ConsoleError message
  | CachesOpen string
  | CachesKeys
  | CachesDelete string
  | CachesMatch string
  | CacheAddAll string "string list"
  | CachePut string string
  | Fetch string
  | SkipWaiting
  | ClientsClaim

text \<open>
  The surroundings a handler cannot control: what the network answers for a locator, and
  whether deleting a named cache succeeds.
\<close>

record env =
  net :: "string \<Rightarrow> fetch_outcome"
  delete_ok :: "string \<Rightarrow> bool"

record world =
  storage :: cache_storage
  trace :: "effect list"

definition emit :: "effect \<Rightarrow> world \<Rightarrow> world" where
  "emit e w = w\<lparr>trace := trace w @ [e]\<rparr>"

subsection \<open>Constants of the source\<close>

definition CACHE_NAME :: string where
  "CACHE_NAME = ''bananapass-cache-v1''"

definition URLS_TO_CACHE :: "string list" where
  "URLS_TO_CACHE =
     [''/'',
      ''/index.html'',
      ''/logo.png'',
      ''/manifest.json'',
      ''/assets/images/hero-background.jpg'',
      ''/assets/images/blog-oaxaca.jpg'',
      ''/assets/images/placeholder-post.jpg'']"

subsection \<open>The host's cache interface\<close>

text \<open>
  The operations of the Cache and CacheStorage interfaces that the worker calls, on the
  storage as a value. A locator stands for the absolute URL it resolves to; request
  headers and \<open>Vary\<close> are not modelled, so two requests match when their locators are equal.
  Opening, enumerating, matching and writing always succeed, as the specification takes
  the store to be reliable; what can fail is a fetch and the deletion of a cache, as the
  surroundings \<open>env\<close> say. In particular \<open>cache.put\<close> is taken for a request
  that the host accepts, one with scheme http or https: the host refuses to store any
  other, and every claim about stored records below is meant for requests that the host
  delivers.
\<close>

text \<open>\<open>cache.match(request)\<close>.\<close>

definition cache_match :: "cache \<Rightarrow> string \<Rightarrow> response option" where
  "cache_match c u = map_of c u"

text \<open>\<open>cache.put(request, response)\<close>: replaces the record of the locator.\<close>

definition cache_put :: "string \<Rightarrow> response \<Rightarrow> cache \<Rightarrow> cache" where
  "cache_put u r c = filter (\<lambda>kv. fst kv \<noteq> u) c @ [(u, r)]"

text \<open>
  \<open>caches.match(request)\<close>: the first record for the locator, looking through the caches
  in creation order.
\<close>

fun caches_match :: "cache_storage \<Rightarrow> string \<Rightarrow> response option" where
  "caches_match [] u = None"
| "caches_match ((n, c) # rest) u =
     (case cache_match c u of
        Some r \<Rightarrow> Some r
      | None \<Rightarrow> caches_match rest u)"

text \<open>\<open>caches.keys()\<close>.\<close>

definition caches_keys :: "cache_storage \<Rightarrow> string list" where
  "caches_keys st = map fst st"

text \<open>\<open>caches.open(name)\<close>: creates the cache when it does not exist.\<close>

definition caches_open :: "string \<Rightarrow> world \<Rightarrow> world" where
  "caches_open n w =
     (let w1 = emit (CachesOpen n) w
      in if n \<in> set (caches_keys (storage w1)) then w1
         else w1\<lparr>storage := storage w1 @ [(n, [])]\<rparr>)"

text \<open>The cache of a name, as \<open>caches.open(name)\<close> hands it out.\<close>

definition cache_of :: "cache_storage \<Rightarrow> string \<Rightarrow> cache option" where
  "cache_of st n = map_of st n"

text \<open>Writing through a cache handle updates the cache of that name.\<close>

fun cache_update :: "string \<Rightarrow> (cache \<Rightarrow> cache) \<Rightarrow> cache_storage \<Rightarrow> cache_storage" where
  "cache_update n f [] = []"
| "cache_update n f ((m, c) # rest) =
     (if m = n then (m, f c) # rest else (m, c) # cache_update n f rest)"

text \<open>
  \<open>caches.delete(name)\<close>: the promise rejects and the storage is unchanged when the host
  fails to delete; otherwise the cache is gone.
\<close>

definition caches_delete :: "env \<Rightarrow> string \<Rightarrow> world \<Rightarrow> settled \<times> world" where
  "caches_delete e n w =
     (let w1 = emit (CachesDelete n) w
      in if delete_ok e n
         then (Fulfilled, w1\<lparr>storage := filter (\<lambda>nc. fst nc \<noteq> n) (storage w1)\<rparr>)
         else (Rejected, w1))"

text \<open>
  \<open>cache.addAll(urls)\<close>, as the Service Worker standard defines it: every locator is
  fetched; the promise rejects, and nothing is stored, when a fetch rejects, when a
  response has type \<open>error\<close>, a status outside 200..299 or the status 206, or when two of
  the requests match each other; otherwise every response is stored under its locator.
\<close>

definition addAll_accepts :: "response \<Rightarrow> bool" where
  "addAll_accepts r =
     (rtype r \<noteq> ''error'' \<and> 200 \<le> status r \<and> status r \<le> 299 \<and> status r \<noteq> 206)"

fun fetch_all :: "env \<Rightarrow> string list \<Rightarrow> (string \<times> response) list option" where
  "fetch_all e [] = Some []"
| "fetch_all e (u # us) =
     (case net e u of
        FetchRejected \<Rightarrow> None
      | FetchResolved None \<Rightarrow> None
      | FetchResolved (Some r) \<Rightarrow>
          if addAll_accepts r
          then (case fetch_all e us of None \<Rightarrow> None | Some rs \<Rightarrow> Some ((u, r) # rs))
          else None)"

fun put_all :: "string \<Rightarrow> (string \<times> response) list \<Rightarrow> cache_storage \<Rightarrow> cache_storage" where
  "put_all n [] st = st"
| "put_all n ((u, r) # rs) st = put_all n rs (cache_update n (cache_put u r) st)"

fun emit_fetches :: "string list \<Rightarrow> world \<Rightarrow> world" where
  "emit_fetches [] w = w"
| "emit_fetches (u # us) w = emit_fetches us (emit (Fetch u) w)"

definition cache_addAll :: "env \<Rightarrow> string \<Rightarrow> string list \<Rightarrow> world \<Rightarrow> settled \<times> world" where
  "cache_addAll e n urls w =
     (let w1 = emit_fetches urls (emit (CacheAddAll n urls) w)
      in case fetch_all e urls of
           None \<Rightarrow> (Rejected, w1)
         | Some rs \<Rightarrow>
             if distinct urls
             then (Fulfilled, w1\<lparr>storage := put_all n rs (storage w1)\<rparr>)
             else (Rejected, w1))"

subsection \<open>The install handler (sw.js, lines 20 to 38)\<close>

text \<open>
  The chain \<open>caches.open(CACHE_NAME).then(cache => cache.addAll(URLS_TO_CACHE))\<close>: the
  population of the current cache, and how it settles.
\<close>

definition populate :: "env \<Rightarrow> world \<Rightarrow> settled \<times> world" where
  "populate e w =
     (let w1 = caches_open CACHE_NAME w;
          w2 = emit (ConsoleLog MsgPrecaching) w1
      in cache_addAll e CACHE_NAME URLS_TO_CACHE w2)"

text \<open>
  The handler returns how the promise it gives to \<open>event.waitUntil\<close> settles. After a
  fulfilled population the chain calls \<open>self.skipWaiting()\<close>; a rejection anywhere in the
  chain reaches the final \<open>.catch\<close>, whose callback writes to the console and returns
  normally, so the promise of the whole chain is fulfilled.
\<close>

definition install_handler :: "env \<Rightarrow> world \<Rightarrow> settled \<times> world" where
  "install_handler e w =
     (let w1 = emit (ConsoleLog MsgInstall) w
      in case populate e w1 of
           (Fulfilled, w2) \<Rightarrow> (Fulfilled, emit SkipWaiting w2)
         | (Rejected, w2) \<Rightarrow> (Fulfilled, emit (ConsoleError MsgPrecacheFailed) w2))"

subsection \<open>The activate handler (sw.js, lines 42 to 61)\<close>

text \<open>
  The callback of \<open>cacheNames.map\<close>, over the names in order: for a name other than
  \<open>CACHE_NAME\<close> it writes to the console and returns the promise of
  \<open>caches.delete(cacheName)\<close>; for \<open>CACHE_NAME\<close> it returns \<open>undefined\<close>, which
  \<open>Promise.all\<close> takes as fulfilled. Every deletion is started by the map, whatever
  becomes of the others.
\<close>

fun delete_old :: "env \<Rightarrow> string list \<Rightarrow> world \<Rightarrow> settled list \<times> world" where
  "delete_old e [] w = ([], w)"
| "delete_old e (cacheName # rest) w =
     (if cacheName \<noteq> CACHE_NAME
      then (let w1 = emit (ConsoleLog (MsgDeletingOld cacheName)) w;
                (p, w2) = caches_delete e cacheName w1;
                (ps, w3) = delete_old e rest w2
            in (p # ps, w3))
      else (let (ps, w3) = delete_old e rest w
            in (Fulfilled # ps, w3)))"

text \<open>\<open>Promise.all\<close>: fulfilled when every promise is, rejected otherwise.\<close>

definition promise_all :: "settled list \<Rightarrow> settled" where
  "promise_all ps = (if list_all (\<lambda>p. p = Fulfilled) ps then Fulfilled else Rejected)"

text \<open>
  The handler returns how the promise it gives to \<open>event.waitUntil\<close> settles:
  \<open>self.clients.claim()\<close> runs in the \<open>.then\<close> after \<open>Promise.all\<close>, and the chain has no
  \<open>.catch\<close>.
\<close>

definition activate_handler :: "env \<Rightarrow> world \<Rightarrow> settled \<times> world" where
  "activate_handler e w =
     (let w1 = emit (ConsoleLog MsgActivate) w;
          w2 = emit CachesKeys w1;
          cacheNames = caches_keys (storage w2);
          (ps, w3) = delete_old e cacheNames w2
      in case promise_all ps of
           Fulfilled \<Rightarrow> (Fulfilled, emit ClientsClaim w3)
         | Rejected \<Rightarrow> (Rejected, w3))"

subsection \<open>The fetch handler (sw.js, lines 64 to 123)\<close>

text \<open>\<open>s.startsWith(p)\<close>.\<close>

definition starts_with :: "string \<Rightarrow> string \<Rightarrow> bool" where
  "starts_with s p = (take (length p) s = p)"

text \<open>
  The handler either returns without calling \<open>event.respondWith\<close> (the host then handles
  the request itself), or responds with a promise. \<open>RespondWith (Some r)\<close>: the promise
  resolves with the response \<open>r\<close>. \<open>RespondWith None\<close>: it resolves with no response
  (\<open>undefined\<close> from the \<open>.catch\<close> callback, or the missing network response), which the
  host delivers to the page as a network error.
\<close>

datatype fetch_result = NotIntercepted | RespondWith "response option"

text \<open>
  The chain \<open>caches.open(name).then(cache => cache.put(request, response))\<close> that the
  handler starts on lines 105 to 109 and neither awaits nor returns: the name of the
  cache, the locator and the response.
\<close>

datatype chain = OpenThenPut string string response

text \<open>The promise of \<open>caches.open(name)\<close> resolves: the cache exists from then on.\<close>

definition open_resolves :: "string \<Rightarrow> world \<Rightarrow> world" where
  "open_resolves n w =
     (if n \<in> set (caches_keys (storage w)) then w
      else w\<lparr>storage := storage w @ [(n, [])]\<rparr>)"

text \<open>
  A started chain settles: the open resolves, then the put is made. Nothing is left to
  settle when the handler has started no chain.
\<close>

fun settle :: "chain option \<Rightarrow> world \<Rightarrow> world" where
  "settle None w = w"
| "settle (Some (OpenThenPut n u r)) w =
     (let w1 = open_resolves n w;
          w2 = emit (CachePut n u) w1
      in w2\<lparr>storage := cache_update n (cache_put u r) (storage w2)\<rparr>)"

text \<open>
  The handler for one fetch event, up to the settling of the promise it gives to
  \<open>event.respondWith\<close>. For an eligible network response the callback calls
  \<open>caches.open(CACHE_NAME)\<close>, hangs the put on its promise and returns
  \<open>networkResponse\<close> at once: the response is delivered while the chain is still
  running. The third component is that chain.
\<close>

definition fetch_event ::
  "env \<Rightarrow> request \<Rightarrow> world \<Rightarrow> fetch_result \<times> world \<times> chain option" where
  "fetch_event e req w =
     (if rmethod req \<noteq> ''GET'' then (NotIntercepted, w, None)
      else if \<not> starts_with (url req) ''http'' then (NotIntercepted, w, None)
      else
        (let w1 = emit (CachesMatch (url req)) w
         in case caches_match (storage w1) (url req) of
              Some cachedResponse \<Rightarrow> (RespondWith (Some cachedResponse), w1, None)
            | None \<Rightarrow>
                (let w2 = emit (Fetch (url req)) w1
                 in case net e (url req) of
                      FetchRejected \<Rightarrow>
                        (RespondWith None,
                         emit (ConsoleError (MsgFetchFailed (url req))) w2, None)
                    | FetchResolved None \<Rightarrow> (RespondWith None, w2, None)
                    | FetchResolved (Some networkResponse) \<Rightarrow>
                        if status networkResponse \<noteq> 200 \<or>
                           (rtype networkResponse \<noteq> ''basic'' \<and> rtype networkResponse \<noteq> ''cors'')
                        then (RespondWith (Some networkResponse), w2, None)
                        else
                          (let w3 = emit (CachesOpen CACHE_NAME) w2
                           in (RespondWith (Some networkResponse), w3,
                               Some (OpenThenPut CACHE_NAME (url req) networkResponse))))))"

text \<open>
  The handler with the chain it started run to its end: what one fetch event has done
  once nothing of it is left running.
\<close>

definition fetch_handler :: "env \<Rightarrow> request \<Rightarrow> world \<Rightarrow> fetch_result \<times> world" where
  "fetch_handler e req w =
     (case fetch_event e req w of (res, w1, started) \<Rightarrow> (res, settle started w1))"

subsection \<open>Vocabulary of the specification\<close>

text \<open>
  The scheme of a URL: what stands before its first colon. The specification speaks of
  requests whose scheme is HTTP or HTTPS; the source tests \<open>url.startsWith('http')\<close>.
\<close>

definition url_scheme :: "string \<Rightarrow> string" where
  "url_scheme u = takeWhile (\<lambda>c. c \<noteq> CHR '':'') u"

definition spec_http_scheme :: "string \<Rightarrow> bool" where
  "spec_http_scheme u = (url_scheme u = ''http'' \<or> url_scheme u = ''https'')"

text \<open>
  The requests that reach the handler. By the Fetch standard the host dispatches a fetch
  event only for a request whose scheme is http or https; some browsers also hand over
  requests of their own extension schemes (the comment on line 70 of the source names
  \<open>chrome-extension\<close>), none of which begins with the letters \<open>http\<close>.
\<close>

definition host_delivers :: "request \<Rightarrow> bool" where
  "host_delivers req =
     (spec_http_scheme (url req) \<or> \<not> starts_with (url_scheme (url req)) ''http'')"

text \<open>
  A lookup in the store of one generation: \<open>cache.match\<close> on the cache of that name, and
  nothing when there is no such cache.
\<close>

definition store_lookup :: "cache_storage \<Rightarrow> string \<Rightarrow> string \<Rightarrow> response option" where
  "store_lookup st n u = (case cache_of st n of None \<Rightarrow> None | Some c \<Rightarrow> cache_match c u)"

text \<open>Counters over the recorded effects.\<close>

fun is_fetch :: "effect \<Rightarrow> bool" where
  "is_fetch (Fetch u) = True"
| "is_fetch _ = False"

fun is_put :: "effect \<Rightarrow> bool" where
  "is_put (CachePut n u) = True"
| "is_put _ = False"

fun is_console_error :: "effect \<Rightarrow> bool" where
  "is_console_error (ConsoleError m) = True"
| "is_console_error _ = False"

definition net_calls :: "world \<Rightarrow> nat" where
  "net_calls w = length (filter is_fetch (trace w))"

definition store_writes :: "world \<Rightarrow> nat" where
  "store_writes w = length (filter is_put (trace w))"

definition console_errors :: "world \<Rightarrow> nat" where
  "console_errors w = length (filter is_console_error (trace w))"

definition clients_claimed :: "world \<Rightarrow> nat" where
  "clients_claimed w = length (filter (\<lambda>x. x = ClientsClaim) (trace w))"

text \<open>
  A successful install: the population that the install handler runs is fulfilled. (The
  promise of the handler itself is fulfilled in either case.)
\<close>

definition install_succeeded :: "env \<Rightarrow> world \<Rightarrow> bool" where
  "install_succeeded e w = (fst (populate e (emit (ConsoleLog MsgInstall) w)) = Fulfilled)"

subsection \<open>Concrete surroundings\<close>

definition resp_ok :: response where
  "resp_ok = \<lparr>status = 200, rtype = ''basic'', body = ''banana''\<rparr>"

definition resp_stale :: response where
  "resp_stale = \<lparr>status = 200, rtype = ''basic'', body = ''old banana''\<rparr>"

definition resp_203 :: response where
  "resp_203 = \<lparr>status = 203, rtype = ''basic'', body = ''banana''\<rparr>"

definition resp_404 :: response where
  "resp_404 = \<lparr>status = 404, rtype = ''basic'', body = ''not found''\<rparr>"

definition req_logo :: request where
  "req_logo = \<lparr>rmethod = ''GET'', url = ''https://bananapass.example/logo.png''\<rparr>"

definition req_submit :: request where
  "req_submit = \<lparr>rmethod = ''POST'', url = ''https://bananapass.example/api/submit''\<rparr>"

definition req_extension :: request where
  "req_extension = \<lparr>rmethod = ''GET'', url = ''chrome-extension://abcdef/inject.js''\<rparr>"

definition OLD_CACHE :: string where
  "OLD_CACHE = ''bananapass-cache-v0''"

definition OTHER_CACHE :: string where
  "OTHER_CACHE = ''bananapass-fonts''"

definition world0 :: world where
  "world0 = \<lparr>storage = [], trace = []\<rparr>"

definition world_cached :: world where
  "world_cached =
     \<lparr>storage = [(CACHE_NAME, [(''https://bananapass.example/logo.png'', resp_ok)])],
      trace = []\<rparr>"

definition world_two_generations :: world where
  "world_two_generations =
     \<lparr>storage = [(OLD_CACHE, [(''https://bananapass.example/logo.png'', resp_stale)]),
                 (CACHE_NAME, [(''https://bananapass.example/logo.png'', resp_ok)])],
      trace = []\<rparr>"

definition world_three_caches :: world where
  "world_three_caches =
     \<lparr>storage = [(OLD_CACHE, [(''https://bananapass.example/logo.png'', resp_stale)]),
                 (OTHER_CACHE, []),
                 (CACHE_NAME, [(''https://bananapass.example/logo.png'', resp_ok)])],
      trace = []\<rparr>"

definition net_up :: env where
  "net_up = \<lparr>net = (\<lambda>u. FetchResolved (Some resp_ok)), delete_ok = (\<lambda>n. True)\<rparr>"

definition net_down :: env where
  "net_down = \<lparr>net = (\<lambda>u. FetchRejected), delete_ok = (\<lambda>n. True)\<rparr>"

definition net_404 :: env where
  "net_404 = \<lparr>net = (\<lambda>u. FetchResolved (Some resp_404)), delete_ok = (\<lambda>n. True)\<rparr>"

definition net_logo_down :: env where
  "net_logo_down =
     \<lparr>net = (\<lambda>u. if u = ''/logo.png'' then FetchRejected else FetchResolved (Some resp_ok)),
      delete_ok = (\<lambda>n. True)\<rparr>"

definition net_proxy :: env where
  "net_proxy = \<lparr>net = (\<lambda>u. FetchResolved (Some resp_203)), delete_ok = (\<lambda>n. True)\<rparr>"

definition old_cache_locked :: env where
  "old_cache_locked =
     \<lparr>net = (\<lambda>u. FetchResolved (Some resp_ok)), delete_ok = (\<lambda>n. n \<noteq> OLD_CACHE)\<rparr>"

section \<open>Facts about the host interface\<close>

lemma cache_match_put:
  "cache_match (cache_put u r c) u' = (if u' = u then Some r else cache_match c u')"
  by (induction c) (auto simp: cache_match_def cache_put_def)

lemma caches_match_update_hit:
  "n \<in> set (caches_keys st) \<Longrightarrow> caches_match st u = None \<Longrightarrow>
   caches_match (cache_update n (cache_put u r) st) u = Some r"
  by (induction st) (force simp: caches_keys_def cache_match_put split: option.splits)+

lemma store_lookup_update:
  "store_lookup (cache_update n f st) n u =
     (case cache_of st n of None \<Rightarrow> None | Some c \<Rightarrow> cache_match (f c) u)"
  by (induction st) (auto simp: store_lookup_def cache_of_def)

lemma cache_of_keys: "n \<in> set (caches_keys st) \<Longrightarrow> \<exists>c. cache_of st n = Some c"
  by (induction st) (auto simp: caches_keys_def cache_of_def)

lemma caches_match_None_lookup:
  "caches_match st u = None \<Longrightarrow> store_lookup st n u = None"
  by (induction st) (auto simp: store_lookup_def cache_of_def split: option.splits)

lemma storage_emit [simp]: "storage (emit x w) = storage w"
  by (simp add: emit_def)

lemma trace_emit [simp]: "trace (emit x w) = trace w @ [x]"
  by (simp add: emit_def)

lemma storage_caches_open:
  "storage (caches_open n w) =
     (if n \<in> set (caches_keys (storage w)) then storage w else storage w @ [(n, [])])"
  by (simp add: caches_open_def Let_def)

lemma trace_caches_open [simp]: "trace (caches_open n w) = trace w @ [CachesOpen n]"
  by (simp add: caches_open_def Let_def)

lemma open_has_key: "n \<in> set (caches_keys (storage (caches_open n w)))"
  by (simp add: storage_caches_open caches_keys_def)

lemma caches_match_append:
  "caches_match (st @ st') u =
     (case caches_match st u of Some r \<Rightarrow> Some r | None \<Rightarrow> caches_match st' u)"
  by (induction st) (auto split: option.splits)

lemma caches_match_open:
  "caches_match (storage (caches_open n w)) u = caches_match (storage w) u"
  by (simp add: storage_caches_open caches_match_append cache_match_def split: option.splits)

lemma caches_match_before_current:
  "store_lookup st n u = Some r \<Longrightarrow>
   caches_match st u =
     (case caches_match (takeWhile (\<lambda>nc. fst nc \<noteq> n) st) u of
        Some r' \<Rightarrow> Some r'
      | None \<Rightarrow> Some r)"
  by (induction st) (auto simp: store_lookup_def cache_of_def split: option.splits)

lemma http_scheme_starts_with: "spec_http_scheme u \<Longrightarrow> starts_with u ''http''"
proof -
  assume h: "spec_http_scheme u"
  have u: "u = url_scheme u @ dropWhile (\<lambda>c. c \<noteq> CHR '':'') u"
    by (simp add: url_scheme_def)
  from h have "\<exists>xs. url_scheme u = ''http'' @ xs"
    by (auto simp: spec_http_scheme_def)
  then obtain xs where "url_scheme u = ''http'' @ xs" ..
  with u obtain ys where "u = ''http'' @ ys"
    by (metis append.assoc)
  then show ?thesis
    by (simp add: starts_with_def)
qed

lemma storage_put_lookup:
  "n \<in> set (caches_keys st) \<Longrightarrow>
   store_lookup (cache_update n (cache_put u r) st) n u = Some r"
  using cache_of_keys [of n st] by (auto simp: store_lookup_update cache_match_put)

lemma caches_keys_update [simp]: "caches_keys (cache_update n f st) = caches_keys st"
  by (induction st) (auto simp: caches_keys_def)

lemma store_lookup_put_other:
  "u' \<noteq> u \<Longrightarrow> store_lookup (cache_update n (cache_put u' r) st) n u = store_lookup st n u"
  unfolding store_lookup_update
  by (auto simp: store_lookup_def cache_match_put split: option.splits)

lemma put_all_other:
  "u \<notin> fst ` set rs \<Longrightarrow> store_lookup (put_all n rs st) n u = store_lookup st n u"
  by (induction rs arbitrary: st) (auto simp: store_lookup_put_other)

lemma put_all_lookup:
  "n \<in> set (caches_keys st) \<Longrightarrow> distinct (map fst rs) \<Longrightarrow> (u, r) \<in> set rs \<Longrightarrow>
   store_lookup (put_all n rs st) n u = Some r"
proof (induction rs arbitrary: st)
  case Nil
  then show ?case by simp
next
  case (Cons ur rs)
  obtain u' r' where ur: "ur = (u', r')" by (cases ur)
  show ?case
  proof (cases "(u, r) = (u', r')")
    case True
    with Cons.prems(2) ur have "u \<notin> fst ` set rs" by auto
    then have "store_lookup (put_all n rs (cache_update n (cache_put u r) st)) n u =
               store_lookup (cache_update n (cache_put u r) st) n u"
      by (rule put_all_other)
    also have "\<dots> = Some r"
      using Cons.prems(1) by (rule storage_put_lookup)
    finally show ?thesis using ur True by simp
  next
    case False
    with Cons.prems(3) ur have "(u, r) \<in> set rs" by auto
    moreover have "n \<in> set (caches_keys (cache_update n (cache_put u' r') st))"
      using Cons.prems(1) by simp
    moreover have "distinct (map fst rs)"
      using Cons.prems(2) by simp
    ultimately have "store_lookup (put_all n rs (cache_update n (cache_put u' r') st)) n u = Some r"
      by (intro Cons.IH)
    then show ?thesis using ur by simp
  qed
qed

lemma storage_emit_fetches [simp]: "storage (emit_fetches us w) = storage w"
  by (induction us arbitrary: w) auto

section \<open>The branches of the fetch handler\<close>

lemma caches_open_split: "caches_open n w = open_resolves n (emit (CachesOpen n) w)"
  by (simp add: caches_open_def open_resolves_def Let_def)

lemma fetch_handler_run:
  "fetch_handler e req w =
     (if rmethod req \<noteq> ''GET'' then (NotIntercepted, w)
      else if \<not> starts_with (url req) ''http'' then (NotIntercepted, w)
      else
        (let w1 = emit (CachesMatch (url req)) w
         in case caches_match (storage w1) (url req) of
              Some cachedResponse \<Rightarrow> (RespondWith (Some cachedResponse), w1)
            | None \<Rightarrow>
                (let w2 = emit (Fetch (url req)) w1
                 in case net e (url req) of
                      FetchRejected \<Rightarrow>
                        (RespondWith None, emit (ConsoleError (MsgFetchFailed (url req))) w2)
                    | FetchResolved None \<Rightarrow> (RespondWith None, w2)
                    | FetchResolved (Some networkResponse) \<Rightarrow>
                        if status networkResponse \<noteq> 200 \<or>
                           (rtype networkResponse \<noteq> ''basic'' \<and> rtype networkResponse \<noteq> ''cors'')
                        then (RespondWith (Some networkResponse), w2)
                        else
                          (let w3 = caches_open CACHE_NAME w2;
                               w4 = emit (CachePut CACHE_NAME (url req)) w3;
                               w5 = w4\<lparr>storage :=
                                      cache_update CACHE_NAME
                                        (cache_put (url req) networkResponse) (storage w4)\<rparr>
                           in (RespondWith (Some networkResponse), w5)))))"
  by (simp add: fetch_handler_def fetch_event_def caches_open_split Let_def
           split: option.splits fetch_outcome.splits)

lemma starts_with_scheme: "starts_with u ''http'' \<Longrightarrow> starts_with (url_scheme u) ''http''"
proof -
  assume "starts_with u ''http''"
  then have "take (length ''http'') u = ''http''"
    by (simp only: starts_with_def)
  then have "u = ''http'' @ drop (length ''http'') u"
    by (metis append_take_drop_id)
  then obtain xs where "u = ''http'' @ xs" ..
  then show ?thesis
    by (simp add: url_scheme_def starts_with_def)
qed

lemma fetch_handler_eligible:
  assumes "rmethod req = ''GET''" and "starts_with (url req) ''http''"
    and "caches_match (storage w) (url req) = None"
    and "net e (url req) = FetchResolved (Some r)"
    and "status r = 200" and "rtype r = ''basic'' \<or> rtype r = ''cors''"
  shows "fetch_handler e req w =
           (RespondWith (Some r),
            \<lparr>storage = cache_update CACHE_NAME (cache_put (url req) r)
                         (storage (caches_open CACHE_NAME w)),
             trace = trace w @ [CachesMatch (url req), Fetch (url req),
                                CachesOpen CACHE_NAME, CachePut CACHE_NAME (url req)]\<rparr>)"
  using assms by (auto simp: fetch_handler_run Let_def storage_caches_open caches_open_def)

lemma fetch_handler_ineligible:
  assumes "rmethod req = ''GET''" and "starts_with (url req) ''http''"
    and "caches_match (storage w) (url req) = None"
    and "net e (url req) = FetchResolved ro"
    and "\<not> (\<exists>r. ro = Some r \<and> status r = 200 \<and> (rtype r = ''basic'' \<or> rtype r = ''cors''))"
  shows "fetch_handler e req w =
           (RespondWith ro,
            w\<lparr>trace := trace w @ [CachesMatch (url req), Fetch (url req)]\<rparr>)"
  using assms by (cases ro) (auto simp: fetch_handler_run Let_def emit_def)

lemma fetch_handler_hit:
  assumes "rmethod req = ''GET''" and "starts_with (url req) ''http''"
    and "caches_match (storage w) (url req) = Some r"
  shows "fetch_handler e req w =
           (RespondWith (Some r), w\<lparr>trace := trace w @ [CachesMatch (url req)]\<rparr>)"
  using assms by (simp add: fetch_handler_run Let_def emit_def)

lemma fetch_handler_not_intercepted:
  assumes "rmethod req \<noteq> ''GET'' \<or> \<not> starts_with (url req) ''http''"
  shows "fetch_handler e req w = (NotIntercepted, w)"
  using assms by (auto simp: fetch_handler_run)

lemma fetch_event_eligible:
  assumes "rmethod req = ''GET''" and "starts_with (url req) ''http''"
    and "caches_match (storage w) (url req) = None"
    and "net e (url req) = FetchResolved (Some r)"
    and "status r = 200" and "rtype r = ''basic'' \<or> rtype r = ''cors''"
  shows "fetch_event e req w =
           (RespondWith (Some r),
            w\<lparr>trace := trace w @ [CachesMatch (url req), Fetch (url req),
                                   CachesOpen CACHE_NAME]\<rparr>,
            Some (OpenThenPut CACHE_NAME (url req) r))"
  using assms by (auto simp: fetch_event_def Let_def emit_def)

lemma fetch_event_hit:
  assumes "rmethod req = ''GET''" and "starts_with (url req) ''http''"
    and "caches_match (storage w) (url req) = Some r"
  shows "fetch_event e req w =
           (RespondWith (Some r), w\<lparr>trace := trace w @ [CachesMatch (url req)]\<rparr>, None)"
  using assms by (simp add: fetch_event_def Let_def emit_def)

lemma fetch_event_not_intercepted:
  assumes "rmethod req \<noteq> ''GET'' \<or> \<not> starts_with (url req) ''http''"
  shows "fetch_event e req w = (NotIntercepted, w, None)"
  using assms by (auto simp: fetch_event_def)

lemma fetch_handler_of_event:
  "fetch_event e req w = (res, w1, started) \<Longrightarrow>
   fetch_handler e req w = (res, settle started w1)"
  by (simp add: fetch_handler_def)

lemma trace_settle:
  "trace (settle (Some (OpenThenPut n u r)) w) = trace w @ [CachePut n u]"
  by (simp add: Let_def open_resolves_def)

section \<open>The deletions of the activate handler\<close>

lemma delete_old_storage:
  "delete_old e ns w = (ps, w') \<Longrightarrow>
   storage w' =
     filter (\<lambda>nc. \<not> (fst nc \<in> set ns \<and> fst nc \<noteq> CACHE_NAME \<and> delete_ok e (fst nc)))
       (storage w)"
proof (induction ns arbitrary: w ps w')
  case Nil
  then show ?case by simp
next
  case (Cons n ns)
  show ?case
  proof (cases "n \<noteq> CACHE_NAME")
    case True
    obtain p w2 where d: "caches_delete e n (emit (ConsoleLog (MsgDeletingOld n)) w) = (p, w2)"
      by (cases "caches_delete e n (emit (ConsoleLog (MsgDeletingOld n)) w)")
    obtain qs w3 where r: "delete_old e ns w2 = (qs, w3)"
      by (cases "delete_old e ns w2")
    from Cons.prems True d r have w': "w' = w3"
      by (simp add: Let_def)
    from d have st2: "storage w2 =
        (if delete_ok e n then filter (\<lambda>nc. fst nc \<noteq> n) (storage w) else storage w)"
      by (auto simp: caches_delete_def Let_def split: if_splits)
    from Cons.IH [OF r] have "storage w3 =
        filter (\<lambda>nc. \<not> (fst nc \<in> set ns \<and> fst nc \<noteq> CACHE_NAME \<and> delete_ok e (fst nc)))
          (storage w2)" .
    with st2 True w' show ?thesis
      by (auto intro!: filter_cong)
  next
    case False
    obtain qs w3 where r: "delete_old e ns w = (qs, w3)"
      by (cases "delete_old e ns w")
    from Cons.prems False r have w': "w' = w3"
      by simp
    from Cons.IH [OF r] False w' show ?thesis
      by (auto intro!: filter_cong)
  qed
qed

lemma delete_old_settled:
  "delete_old e ns w = (ps, w') \<Longrightarrow>
   (promise_all ps = Fulfilled) = (\<forall>n\<in>set ns. n \<noteq> CACHE_NAME \<longrightarrow> delete_ok e n)"
proof (induction ns arbitrary: w ps w')
  case Nil
  then show ?case by (simp add: promise_all_def)
next
  case (Cons n ns)
  show ?case
  proof (cases "n \<noteq> CACHE_NAME")
    case True
    obtain p w2 where d: "caches_delete e n (emit (ConsoleLog (MsgDeletingOld n)) w) = (p, w2)"
      by (cases "caches_delete e n (emit (ConsoleLog (MsgDeletingOld n)) w)")
    obtain qs w3 where r: "delete_old e ns w2 = (qs, w3)"
      by (cases "delete_old e ns w2")
    from Cons.prems True d r have ps: "ps = p # qs"
      by (simp add: Let_def)
    from d have p: "(p = Fulfilled) = delete_ok e n"
      by (auto simp: caches_delete_def Let_def split: if_splits)
    from Cons.IH [OF r] ps p True show ?thesis
      by (auto simp: promise_all_def split: if_splits)
  next
    case False
    obtain qs w3 where r: "delete_old e ns w = (qs, w3)"
      by (cases "delete_old e ns w")
    from Cons.prems False r have ps: "ps = Fulfilled # qs"
      by simp
    from Cons.IH [OF r] ps False show ?thesis
      by (auto simp: promise_all_def split: if_splits)
  qed
qed

lemma delete_old_trace:
  "delete_old e ns w = (ps, w') \<Longrightarrow>
   console_errors w' = console_errors w \<and> clients_claimed w' = clients_claimed w"
proof (induction ns arbitrary: w ps w')
  case Nil
  then show ?case by simp
next
  case (Cons n ns)
  show ?case
  proof (cases "n \<noteq> CACHE_NAME")
    case True
    obtain p w2 where d: "caches_delete e n (emit (ConsoleLog (MsgDeletingOld n)) w) = (p, w2)"
      by (cases "caches_delete e n (emit (ConsoleLog (MsgDeletingOld n)) w)")
    obtain qs w3 where r: "delete_old e ns w2 = (qs, w3)"
      by (cases "delete_old e ns w2")
    from Cons.prems True d r have w': "w' = w3"
      by (simp add: Let_def)
    from d have "trace w2 = trace w @ [ConsoleLog (MsgDeletingOld n), CachesDelete n]"
      by (auto simp: caches_delete_def Let_def split: if_splits)
    then have "console_errors w2 = console_errors w \<and> clients_claimed w2 = clients_claimed w"
      by (simp add: console_errors_def clients_claimed_def)
    with Cons.IH [OF r] w' show ?thesis by simp
  next
    case False
    obtain qs w3 where r: "delete_old e ns w = (qs, w3)"
      by (cases "delete_old e ns w")
    from Cons.prems False r have w': "w' = w3"
      by simp
    with Cons.IH [OF r] show ?thesis by simp
  qed
qed

lemma activate_handler_unfold:
  assumes "activate_handler e w = (p, w')"
  obtains ps w3 where
    "delete_old e (caches_keys (storage w))
       (emit CachesKeys (emit (ConsoleLog MsgActivate) w)) = (ps, w3)"
    and "p = promise_all ps"
    and "w' = (if p = Fulfilled then emit ClientsClaim w3 else w3)"
proof -
  obtain ps w3 where d: "delete_old e (caches_keys (storage w))
       (emit CachesKeys (emit (ConsoleLog MsgActivate) w)) = (ps, w3)"
    by (cases "delete_old e (caches_keys (storage w))
       (emit CachesKeys (emit (ConsoleLog MsgActivate) w))")
  with assms have "p = promise_all ps \<and> w' = (if p = Fulfilled then emit ClientsClaim w3 else w3)"
    by (auto simp: activate_handler_def Let_def split: settled.splits)
  with d that show ?thesis by blast
qed

section \<open>The population of the install handler\<close>

lemma fetch_all_locators: "fetch_all e us = Some rs \<Longrightarrow> map fst rs = us"
  by (induction us arbitrary: rs)
     (auto split: fetch_outcome.splits option.splits if_splits)

lemma fetch_all_accepted:
  "fetch_all e us = Some rs \<Longrightarrow> (u, r) \<in> set rs \<Longrightarrow>
   net e u = FetchResolved (Some r) \<and> addAll_accepts r"
  by (induction us arbitrary: rs)
     (auto split: fetch_outcome.splits option.splits if_splits)

lemma cache_addAll_fulfilled:
  assumes "cache_addAll e n urls w = (Fulfilled, w')"
  obtains rs where "fetch_all e urls = Some rs" and "distinct urls"
    and "storage w' = put_all n rs (storage w)"
  using assms
  by (auto simp: cache_addAll_def Let_def split: option.splits if_splits)

lemma populate_fulfilled:
  assumes "populate e w = (Fulfilled, w')" and "u \<in> set URLS_TO_CACHE"
  shows "\<exists>r. store_lookup (storage w') CACHE_NAME u = Some r \<and>
             net e u = FetchResolved (Some r) \<and> addAll_accepts r"
proof -
  let ?w2 = "emit (ConsoleLog MsgPrecaching) (caches_open CACHE_NAME w)"
  from assms(1) have "cache_addAll e CACHE_NAME URLS_TO_CACHE ?w2 = (Fulfilled, w')"
    by (simp add: populate_def Let_def)
  then obtain rs where f: "fetch_all e URLS_TO_CACHE = Some rs"
    and d: "distinct URLS_TO_CACHE"
    and st: "storage w' = put_all CACHE_NAME rs (storage ?w2)"
    by (rule cache_addAll_fulfilled)
  from f have m: "map fst rs = URLS_TO_CACHE"
    by (rule fetch_all_locators)
  with assms(2) obtain r where r: "(u, r) \<in> set rs"
    by (metis (no_types, opaque_lifting) fst_conv imageE list.set_map prod.collapse)
  have k: "CACHE_NAME \<in> set (caches_keys (storage ?w2))"
    by (simp add: open_has_key)
  from d m have "distinct (map fst rs)" by simp
  with k have "store_lookup (put_all CACHE_NAME rs (storage ?w2)) CACHE_NAME u = Some r"
    using r by (rule put_all_lookup)
  with st fetch_all_accepted [OF f r] show ?thesis by simp
qed

lemma install_handler_storage:
  "storage (snd (install_handler e w)) = storage (snd (populate e (emit (ConsoleLog MsgInstall) w)))"
  by (auto simp: install_handler_def Let_def split: prod.splits settled.splits)

lemma install_handler_fulfilled: "fst (install_handler e w) = Fulfilled"
  by (auto simp: install_handler_def Let_def split: prod.splits settled.splits)

section \<open>The fetch handler: claims\<close>

text \<open>
  C9. On a cache miss whose network fetch is rejected, the handler ends without a
  response: the failure is written to the console, the promise given to
  \<open>event.respondWith\<close> resolves with no response at all (no fallback is made up, the host
  reports a network error to the page), and the storage is as it was.
\<close>

theorem fetch_failure_no_fallback:
  assumes "rmethod req = ''GET''" and "starts_with (url req) ''http''"
    and "caches_match (storage w) (url req) = None"
    and "net e (url req) = FetchRejected"
  shows "fetch_handler e req w =
           (RespondWith None,
            w\<lparr>trace := trace w @ [CachesMatch (url req), Fetch (url req),
                                   ConsoleError (MsgFetchFailed (url req))]\<rparr>)"
  using assms by (simp add: fetch_handler_run Let_def emit_def)

text \<open>The hypotheses of C9 hold for a request to an unreachable network, with nothing cached.\<close>

theorem fetch_failure_no_fallback_witness:
  "rmethod req_logo = ''GET'' \<and> starts_with (url req_logo) ''http'' \<and>
   caches_match (storage world0) (url req_logo) = None \<and>
   net net_down (url req_logo) = FetchRejected \<and>
   fetch_handler net_down req_logo world0 =
     (RespondWith None,
      \<lparr>storage = [],
       trace = [CachesMatch ''https://bananapass.example/logo.png'',
                Fetch ''https://bananapass.example/logo.png'',
                ConsoleError (MsgFetchFailed ''https://bananapass.example/logo.png'')]\<rparr>)"
proof -
  have h1: "rmethod req_logo = ''GET''"
    by (simp add: req_logo_def)
  have h2: "starts_with (url req_logo) ''http''"
    by (simp add: req_logo_def starts_with_def)
  have h3: "caches_match (storage world0) (url req_logo) = None"
    by (simp add: world0_def)
  have h4: "net net_down (url req_logo) = FetchRejected"
    by (simp add: net_down_def)
  show ?thesis
    using h1 h2 h3 h4 fetch_failure_no_fallback [OF h1 h2 h3 h4]
    by (simp add: world0_def req_logo_def)
qed

text \<open>
  C3. On a cache miss that the network answers, the answer is handed to the caller as it
  came, and a record for the locator exists in the current cache afterwards, once the
  write that the handler started has settled, if and only if the answer is a response
  with status 200 and type \<open>basic\<close> or \<open>cors\<close>; that record is the answer itself, and
  for any other answer the storage is unchanged.
\<close>

theorem miss_record_iff_eligible:
  assumes "rmethod req = ''GET''" and "starts_with (url req) ''http''"
    and "caches_match (storage w) (url req) = None"
    and "net e (url req) = FetchResolved ro"
    and "fetch_handler e req w = (res, w')"
  shows "res = RespondWith ro \<and>
         ((store_lookup (storage w') CACHE_NAME (url req) \<noteq> None) \<longleftrightarrow>
            (\<exists>r. ro = Some r \<and> status r = 200 \<and> (rtype r = ''basic'' \<or> rtype r = ''cors''))) \<and>
         ((\<exists>r. ro = Some r \<and> status r = 200 \<and> (rtype r = ''basic'' \<or> rtype r = ''cors'')) \<longrightarrow>
            store_lookup (storage w') CACHE_NAME (url req) = ro) \<and>
         (\<not> (\<exists>r. ro = Some r \<and> status r = 200 \<and> (rtype r = ''basic'' \<or> rtype r = ''cors'')) \<longrightarrow>
            storage w' = storage w)"
proof (cases "\<exists>r. ro = Some r \<and> status r = 200 \<and> (rtype r = ''basic'' \<or> rtype r = ''cors'')")
  case True
  then obtain r where r: "ro = Some r" "status r = 200" "rtype r = ''basic'' \<or> rtype r = ''cors''"
    by blast
  from fetch_handler_eligible [OF assms(1-3) assms(4) [unfolded r(1)] r(2,3)] assms(5)
  have res: "res = RespondWith (Some r)"
    and st: "storage w' = cache_update CACHE_NAME (cache_put (url req) r)
                            (storage (caches_open CACHE_NAME w))"
    by auto
  have "store_lookup (storage w') CACHE_NAME (url req) = Some r"
    unfolding st by (rule storage_put_lookup) (rule open_has_key)
  with res r True show ?thesis by simp
next
  case False
  from fetch_handler_ineligible [OF assms(1-4) False] assms(5)
  have res: "res = RespondWith ro" and st: "storage w' = storage w"
    by auto
  from assms(3) have "store_lookup (storage w) CACHE_NAME (url req) = None"
    by (rule caches_match_None_lookup)
  with res st False show ?thesis by auto
qed

text \<open>
  The hypotheses of C3 hold on both sides: a 404 answer is returned and leaves no record,
  a 200 answer is returned and recorded.
\<close>

theorem miss_record_iff_eligible_witness:
  "rmethod req_logo = ''GET'' \<and> starts_with (url req_logo) ''http'' \<and>
   caches_match (storage world0) (url req_logo) = None \<and>
   net net_404 (url req_logo) = FetchResolved (Some resp_404) \<and>
   net net_up (url req_logo) = FetchResolved (Some resp_ok) \<and>
   fst (fetch_handler net_404 req_logo world0) = RespondWith (Some resp_404) \<and>
   store_lookup (storage (snd (fetch_handler net_404 req_logo world0))) CACHE_NAME (url req_logo)
     = None \<and>
   fst (fetch_handler net_up req_logo world0) = RespondWith (Some resp_ok) \<and>
   store_lookup (storage (snd (fetch_handler net_up req_logo world0))) CACHE_NAME (url req_logo)
     = Some resp_ok"
proof -
  have h1: "rmethod req_logo = ''GET''"
    by (simp add: req_logo_def)
  have h2: "starts_with (url req_logo) ''http''"
    by (simp add: req_logo_def starts_with_def)
  have h3: "caches_match (storage world0) (url req_logo) = None"
    by (simp add: world0_def)
  have h4: "net net_404 (url req_logo) = FetchResolved (Some resp_404)"
    by (simp add: net_404_def)
  have h5: "net net_up (url req_logo) = FetchResolved (Some resp_ok)"
    by (simp add: net_up_def)
  have e4: "\<not> (\<exists>r. Some resp_404 = Some r \<and> status r = 200 \<and>
                  (rtype r = ''basic'' \<or> rtype r = ''cors''))"
    by (simp add: resp_404_def)
  have e5: "\<exists>r. Some resp_ok = Some r \<and> status r = 200 \<and>
                (rtype r = ''basic'' \<or> rtype r = ''cors'')"
    by (simp add: resp_ok_def)
  note t4 = miss_record_iff_eligible [OF h1 h2 h3 h4 surjective_pairing]
  note t5 = miss_record_iff_eligible [OF h1 h2 h3 h5 surjective_pairing]
  have a: "fst (fetch_handler net_404 req_logo world0) = RespondWith (Some resp_404) \<and>
      store_lookup (storage (snd (fetch_handler net_404 req_logo world0))) CACHE_NAME
        (url req_logo) = None"
    using t4 e4 by blast
  have b: "fst (fetch_handler net_up req_logo world0) = RespondWith (Some resp_ok) \<and>
      store_lookup (storage (snd (fetch_handler net_up req_logo world0))) CACHE_NAME
        (url req_logo) = Some resp_ok"
    using t5 e5 by blast
  from h1 h2 h3 h4 h5 a b show ?thesis by simp
qed

text \<open>
  C8, as amended. For a GET request with scheme HTTP or HTTPS whose locator no cache holds
  and that the network answers with a cacheable response, handling the request twice in
  a row, the second time after the write that the first run started has settled, makes
  exactly one network call in the first run and none in the second, whatever the network
  would answer by then, and both runs respond with the same response.
\<close>

theorem handle_twice_one_network_call:
  assumes "rmethod req = ''GET''" and "spec_http_scheme (url req)"
    and "caches_match (storage w) (url req) = None"
    and "net e1 (url req) = FetchResolved (Some r)"
    and "status r = 200" and "rtype r = ''basic'' \<or> rtype r = ''cors''"
    and "fetch_event e1 req w = (res1, w1, started)"
    and "fetch_event e2 req (settle started w1) = (res2, w2, started2)"
  shows "net_calls w1 = net_calls w + 1 \<and> net_calls (settle started w1) = net_calls w1 \<and>
         net_calls w2 = net_calls w1 \<and>
         res1 = RespondWith (Some r) \<and> res2 = RespondWith (Some r)"
proof -
  have sw: "starts_with (url req) ''http''"
    using assms(2) by (rule http_scheme_starts_with)
  from fetch_event_eligible [OF assms(1) sw assms(3-6)] assms(7)
  have res1: "res1 = RespondWith (Some r)"
    and tr1: "trace w1 = trace w @ [CachesMatch (url req), Fetch (url req),
                                    CachesOpen CACHE_NAME]"
    and st: "started = Some (OpenThenPut CACHE_NAME (url req) r)"
    by auto
  have trs: "trace (settle started w1) = trace w1 @ [CachePut CACHE_NAME (url req)]"
    unfolding st by (rule trace_settle)
  from fetch_handler_of_event [OF assms(7)]
    fetch_handler_eligible [OF assms(1) sw assms(3-6)]
  have eq: "settle started w1 =
      \<lparr>storage = cache_update CACHE_NAME (cache_put (url req) r)
                   (storage (caches_open CACHE_NAME w)),
       trace = trace w @ [CachesMatch (url req), Fetch (url req),
                          CachesOpen CACHE_NAME, CachePut CACHE_NAME (url req)]\<rparr>"
    by simp
  have sts: "storage (settle started w1) =
               cache_update CACHE_NAME (cache_put (url req) r)
                 (storage (caches_open CACHE_NAME w))"
    unfolding eq by simp
  have "caches_match (storage (caches_open CACHE_NAME w)) (url req) = None"
    using assms(3) by (simp add: caches_match_open)
  then have hit: "caches_match (storage (settle started w1)) (url req) = Some r"
    unfolding sts by (rule caches_match_update_hit [OF open_has_key])
  from fetch_event_hit [OF assms(1) sw hit] assms(8)
  have res2: "res2 = RespondWith (Some r)"
    and tr2: "trace w2 = trace (settle started w1) @ [CachesMatch (url req)]"
    by auto
  show ?thesis
    using res1 res2 by (simp add: net_calls_def tr1 trs tr2)
qed

text \<open>
  The hypotheses of the amended C8 hold for a first request while the network is up and a
  second one, after the write has settled, while the network is down.
\<close>

theorem handle_twice_one_network_call_witness:
  "rmethod req_logo = ''GET'' \<and> spec_http_scheme (url req_logo) \<and>
   caches_match (storage world0) (url req_logo) = None \<and>
   net net_up (url req_logo) = FetchResolved (Some resp_ok) \<and>
   status resp_ok = 200 \<and> rtype resp_ok = ''basic'' \<and>
   net_calls (fst (snd (fetch_event net_up req_logo world0))) = 1 \<and>
   net_calls (fst (snd (fetch_event net_down req_logo
      (settle (snd (snd (fetch_event net_up req_logo world0)))
         (fst (snd (fetch_event net_up req_logo world0))))))) = 1 \<and>
   fst (fetch_event net_down req_logo
      (settle (snd (snd (fetch_event net_up req_logo world0)))
         (fst (snd (fetch_event net_up req_logo world0))))) = RespondWith (Some resp_ok)"
proof -
  have h1: "rmethod req_logo = ''GET''"
    by (simp add: req_logo_def)
  have h2: "spec_http_scheme (url req_logo)"
    by (simp add: req_logo_def spec_http_scheme_def url_scheme_def)
  have h3: "caches_match (storage world0) (url req_logo) = None"
    by (simp add: world0_def)
  have h4: "net net_up (url req_logo) = FetchResolved (Some resp_ok)"
    by (simp add: net_up_def)
  have h5: "status resp_ok = 200"
    by (simp add: resp_ok_def)
  have h6: "rtype resp_ok = ''basic'' \<or> rtype resp_ok = ''cors''"
    by (simp add: resp_ok_def)
  have h6': "rtype resp_ok = ''basic''"
    by (simp add: resp_ok_def)
  have n0: "net_calls world0 = 0"
    by (simp add: net_calls_def world0_def)
  have p: "\<And>x :: fetch_result \<times> world \<times> chain option. x = (fst x, fst (snd x), snd (snd x))"
    by simp
  note t = handle_twice_one_network_call [OF h1 h2 h3 h4 h5 h6 p p, of net_down]
  from t n0 have
    "net_calls (fst (snd (fetch_event net_up req_logo world0))) = 1 \<and>
     net_calls (fst (snd (fetch_event net_down req_logo
        (settle (snd (snd (fetch_event net_up req_logo world0)))
           (fst (snd (fetch_event net_up req_logo world0))))))) = 1 \<and>
     fst (fetch_event net_down req_logo
        (settle (snd (snd (fetch_event net_up req_logo world0)))
           (fst (snd (fetch_event net_up req_logo world0))))) = RespondWith (Some resp_ok)"
    by simp
  with h1 h2 h3 h4 h5 h6' show ?thesis by blast
qed

text \<open>
  C8 as stated fails: the handler returns the network response without waiting for the
  write it has started, so a second run that begins before the write has settled finds
  the storage as the first run found it, misses again and calls the network again.
\<close>

theorem handle_twice_unsettled_counterexample:
  "rmethod req_logo = ''GET'' \<and> spec_http_scheme (url req_logo) \<and>
   caches_match (storage world0) (url req_logo) = None \<and>
   net net_up (url req_logo) = FetchResolved (Some resp_ok) \<and>
   status resp_ok = 200 \<and> rtype resp_ok = ''basic'' \<and>
   fetch_event net_up req_logo world0 =
     (RespondWith (Some resp_ok),
      \<lparr>storage = [],
       trace = [CachesMatch ''https://bananapass.example/logo.png'',
                Fetch ''https://bananapass.example/logo.png'',
                CachesOpen CACHE_NAME]\<rparr>,
      Some (OpenThenPut CACHE_NAME ''https://bananapass.example/logo.png'' resp_ok)) \<and>
   fetch_event net_up req_logo
      \<lparr>storage = [],
       trace = [CachesMatch ''https://bananapass.example/logo.png'',
                Fetch ''https://bananapass.example/logo.png'',
                CachesOpen CACHE_NAME]\<rparr> =
     (RespondWith (Some resp_ok),
      \<lparr>storage = [],
       trace = [CachesMatch ''https://bananapass.example/logo.png'',
                Fetch ''https://bananapass.example/logo.png'',
                CachesOpen CACHE_NAME,
                CachesMatch ''https://bananapass.example/logo.png'',
                Fetch ''https://bananapass.example/logo.png'',
                CachesOpen CACHE_NAME]\<rparr>,
      Some (OpenThenPut CACHE_NAME ''https://bananapass.example/logo.png'' resp_ok)) \<and>
   net_calls
      \<lparr>storage = [],
       trace = [CachesMatch ''https://bananapass.example/logo.png'',
                Fetch ''https://bananapass.example/logo.png'',
                CachesOpen CACHE_NAME,
                CachesMatch ''https://bananapass.example/logo.png'',
                Fetch ''https://bananapass.example/logo.png'',
                CachesOpen CACHE_NAME]\<rparr> = 2"
  by (simp add: req_logo_def spec_http_scheme_def url_scheme_def world0_def net_up_def
        resp_ok_def fetch_event_def starts_with_def Let_def emit_def net_calls_def)

text \<open>
  C10. One run of the fetch handler writes to the cache storage at most once, and a write
  happens only for an intercepted request on a cache miss that the network answers with a
  response of status 200 and type \<open>basic\<close> or \<open>cors\<close>. On a cache hit, on a rejected
  fetch and on any other answer, the storage (every record of every cache) is unchanged.
\<close>

theorem store_written_at_most_once:
  assumes "fetch_handler e req w = (res, w')"
  shows "store_writes w' \<le> store_writes w + 1 \<and>
         (store_writes w' = store_writes w + 1 \<longrightarrow>
            rmethod req = ''GET'' \<and> starts_with (url req) ''http'' \<and>
            caches_match (storage w) (url req) = None \<and>
            (\<exists>r. net e (url req) = FetchResolved (Some r) \<and> status r = 200 \<and>
                 (rtype r = ''basic'' \<or> rtype r = ''cors''))) \<and>
         (caches_match (storage w) (url req) \<noteq> None \<longrightarrow>
            storage w' = storage w \<and> store_writes w' = store_writes w) \<and>
         (net e (url req) = FetchRejected \<longrightarrow>
            storage w' = storage w \<and> store_writes w' = store_writes w) \<and>
         ((\<forall>r. net e (url req) = FetchResolved (Some r) \<longrightarrow>
                \<not> (status r = 200 \<and> (rtype r = ''basic'' \<or> rtype r = ''cors''))) \<longrightarrow>
            storage w' = storage w \<and> store_writes w' = store_writes w)"
  using assms
  by (auto simp: fetch_handler_run Let_def store_writes_def
           split: if_splits option.splits fetch_outcome.splits)

text \<open>
  C10 at concrete runs: a cache hit, a rejected fetch and a 404 answer leave the storage
  as it was, and the one run that stores counts one write.
\<close>

theorem store_written_at_most_once_witness:
  "caches_match (storage world_cached) (url req_logo) \<noteq> None \<and>
   storage (snd (fetch_handler net_up req_logo world_cached)) = storage world_cached \<and>
   net net_down (url req_logo) = FetchRejected \<and>
   storage (snd (fetch_handler net_down req_logo world0)) = storage world0 \<and>
   storage (snd (fetch_handler net_404 req_logo world0)) = storage world0 \<and>
   store_writes (snd (fetch_handler net_up req_logo world0)) \<le> 1 \<and>
   store_writes (snd (fetch_handler net_up req_logo world0)) = 1"
proof -
  have hit: "caches_match (storage world_cached) (url req_logo) \<noteq> None"
    by (simp add: world_cached_def req_logo_def cache_match_def)
  have rej: "net net_down (url req_logo) = FetchRejected"
    by (simp add: net_down_def)
  have inel: "\<forall>r. net net_404 (url req_logo) = FetchResolved (Some r) \<longrightarrow>
      \<not> (status r = 200 \<and> (rtype r = ''basic'' \<or> rtype r = ''cors''))"
    by (simp add: net_404_def resp_404_def)
  have w0: "store_writes world0 = 0"
    by (simp add: store_writes_def world0_def)
  have one: "store_writes (snd (fetch_handler net_up req_logo world0)) = 1"
    by (simp add: fetch_handler_run Let_def store_writes_def req_logo_def world0_def
          net_up_def resp_ok_def starts_with_def caches_open_def emit_def)
  note t1 = store_written_at_most_once [of net_up req_logo world_cached, OF surjective_pairing]
  note t2 = store_written_at_most_once [of net_down req_logo world0, OF surjective_pairing]
  note t3 = store_written_at_most_once [of net_404 req_logo world0, OF surjective_pairing]
  note t4 = store_written_at_most_once [of net_up req_logo world0, OF surjective_pairing]
  have a: "storage (snd (fetch_handler net_up req_logo world_cached)) = storage world_cached"
    using t1 hit by blast
  have b: "storage (snd (fetch_handler net_down req_logo world0)) = storage world0"
    using t2 rej by blast
  have c: "storage (snd (fetch_handler net_404 req_logo world0)) = storage world0"
    using t3 inel by blast
  have d: "store_writes (snd (fetch_handler net_up req_logo world0)) \<le> 1"
    using t4 w0 by simp
  from hit a rej b c d one show ?thesis by blast
qed

text \<open>
  C2, as amended. For a GET request with scheme HTTP or HTTPS whose locator has a record in
  the current cache, the handler makes no network call, leaves the storage as it was and
  responds with the first record for the locator that \<open>caches.match\<close> finds, going
  through all caches in creation order. That is the record of the current cache whenever
  no cache created before the current one holds the locator, in particular when the
  current cache is the only one.
\<close>

theorem cache_hit_no_network:
  assumes "rmethod req = ''GET''" and "spec_http_scheme (url req)"
    and "store_lookup (storage w) CACHE_NAME (url req) = Some r"
    and "fetch_handler e req w = (res, w')"
  shows "net_calls w' = net_calls w \<and> storage w' = storage w \<and>
         (\<exists>r'. res = RespondWith (Some r') \<and> caches_match (storage w) (url req) = Some r') \<and>
         (caches_match (takeWhile (\<lambda>nc. fst nc \<noteq> CACHE_NAME) (storage w)) (url req) = None
            \<longrightarrow> res = RespondWith (Some r))"
proof -
  have sw: "starts_with (url req) ''http''"
    using assms(2) by (rule http_scheme_starts_with)
  note m = caches_match_before_current [OF assms(3)]
  then obtain r' where r': "caches_match (storage w) (url req) = Some r'"
    by (cases "caches_match (takeWhile (\<lambda>nc. fst nc \<noteq> CACHE_NAME) (storage w)) (url req)")
       auto
  from fetch_handler_hit [OF assms(1) sw r'] assms(4)
  have "res = RespondWith (Some r')" and "w' = w\<lparr>trace := trace w @ [CachesMatch (url req)]\<rparr>"
    by auto
  with r' m show ?thesis
    by (auto simp: net_calls_def)
qed

text \<open>
  The hypotheses of the amended C2 hold when the current cache is the only one and the
  network is down: the record is served.
\<close>

theorem cache_hit_no_network_witness:
  "rmethod req_logo = ''GET'' \<and> spec_http_scheme (url req_logo) \<and>
   store_lookup (storage world_cached) CACHE_NAME (url req_logo) = Some resp_ok \<and>
   net_calls (snd (fetch_handler net_down req_logo world_cached)) = net_calls world_cached \<and>
   fst (fetch_handler net_down req_logo world_cached) = RespondWith (Some resp_ok)"
proof -
  have h1: "rmethod req_logo = ''GET''"
    by (simp add: req_logo_def)
  have h2: "spec_http_scheme (url req_logo)"
    by (simp add: req_logo_def spec_http_scheme_def url_scheme_def)
  have h3: "store_lookup (storage world_cached) CACHE_NAME (url req_logo) = Some resp_ok"
    by (simp add: world_cached_def req_logo_def store_lookup_def cache_of_def cache_match_def)
  have h4: "caches_match (takeWhile (\<lambda>nc. fst nc \<noteq> CACHE_NAME) (storage world_cached))
              (url req_logo) = None"
    by (simp add: world_cached_def)
  note t = cache_hit_no_network [OF h1 h2 h3 surjective_pairing, of net_down]
  from t h4 have
    "net_calls (snd (fetch_handler net_down req_logo world_cached)) = net_calls world_cached \<and>
     fst (fetch_handler net_down req_logo world_cached) = RespondWith (Some resp_ok)"
    by blast
  with h1 h2 h3 show ?thesis by blast
qed

text \<open>
  C2 as stated fails: with an older cache that was created before the current one and
  holds the same locator, the handler responds with the older record, not with the record
  of the current cache.
\<close>

theorem cache_hit_older_generation_counterexample:
  "rmethod req_logo = ''GET'' \<and> spec_http_scheme (url req_logo) \<and>
   store_lookup (storage world_two_generations) CACHE_NAME (url req_logo) = Some resp_ok \<and>
   fetch_handler net_up req_logo world_two_generations =
     (RespondWith (Some resp_stale),
      world_two_generations\<lparr>trace := [CachesMatch ''https://bananapass.example/logo.png'']\<rparr>) \<and>
   resp_stale \<noteq> resp_ok"
  by (simp add: req_logo_def spec_http_scheme_def url_scheme_def store_lookup_def cache_of_def
        cache_match_def world_two_generations_def CACHE_NAME_def OLD_CACHE_def
        fetch_handler_run starts_with_def Let_def emit_def resp_stale_def resp_ok_def)

section \<open>The activate handler: claims\<close>

text \<open>
  C4. When the reclaim of the activate handler completes, that is, when the promise the
  handler gives to \<open>event.waitUntil\<close> is fulfilled, a name is in the enumeration of the
  storage if and only if it was there before and equals \<open>CACHE_NAME\<close>: every cache of
  another name has been deleted.
\<close>

theorem reclaim_leaves_current_only:
  assumes "activate_handler e w = (Fulfilled, w')"
  shows "\<forall>g. g \<in> set (caches_keys (storage w')) \<longleftrightarrow>
              g \<in> set (caches_keys (storage w)) \<and> g = CACHE_NAME"
proof -
  from assms obtain ps w3 where
    d: "delete_old e (caches_keys (storage w))
          (emit CachesKeys (emit (ConsoleLog MsgActivate) w)) = (ps, w3)"
    and p: "Fulfilled = promise_all ps"
    and w': "w' = (if Fulfilled = Fulfilled then emit ClientsClaim w3 else w3)"
    by (rule activate_handler_unfold)
  have ok: "\<forall>n\<in>set (caches_keys (storage w)). n \<noteq> CACHE_NAME \<longrightarrow> delete_ok e n"
    using delete_old_settled [OF d] p by simp
  have "storage w' =
     filter (\<lambda>nc. \<not> (fst nc \<in> set (caches_keys (storage w)) \<and> fst nc \<noteq> CACHE_NAME \<and>
                      delete_ok e (fst nc))) (storage w)"
    using delete_old_storage [OF d] w' by simp
  also have "\<dots> = filter (\<lambda>nc. fst nc = CACHE_NAME) (storage w)"
    using ok by (intro filter_cong) (auto simp: caches_keys_def)
  finally show ?thesis
    by (force simp: caches_keys_def)
qed

text \<open>
  The hypothesis of C4 holds for three caches whose deletions all succeed: the two other
  caches are gone and the current one is enumerated.
\<close>

theorem reclaim_leaves_current_only_witness:
  "activate_handler net_up world_three_caches =
     (Fulfilled,
      \<lparr>storage = [(CACHE_NAME, [(''https://bananapass.example/logo.png'', resp_ok)])],
       trace = [ConsoleLog MsgActivate, CachesKeys,
                ConsoleLog (MsgDeletingOld OLD_CACHE), CachesDelete OLD_CACHE,
                ConsoleLog (MsgDeletingOld OTHER_CACHE), CachesDelete OTHER_CACHE,
                ClientsClaim]\<rparr>) \<and>
   OLD_CACHE \<in> set (caches_keys (storage world_three_caches)) \<and>
   OLD_CACHE \<notin> set (caches_keys (storage (snd (activate_handler net_up world_three_caches)))) \<and>
   CACHE_NAME \<in> set (caches_keys (storage (snd (activate_handler net_up world_three_caches))))"
proof -
  have h: "activate_handler net_up world_three_caches =
     (Fulfilled,
      \<lparr>storage = [(CACHE_NAME, [(''https://bananapass.example/logo.png'', resp_ok)])],
       trace = [ConsoleLog MsgActivate, CachesKeys,
                ConsoleLog (MsgDeletingOld OLD_CACHE), CachesDelete OLD_CACHE,
                ConsoleLog (MsgDeletingOld OTHER_CACHE), CachesDelete OTHER_CACHE,
                ClientsClaim]\<rparr>)"
    by (simp add: activate_handler_def caches_delete_def promise_all_def caches_keys_def
          emit_def Let_def world_three_caches_def net_up_def
          CACHE_NAME_def OLD_CACHE_def OTHER_CACHE_def)
  have k: "OLD_CACHE \<in> set (caches_keys (storage world_three_caches)) \<and>
           CACHE_NAME \<in> set (caches_keys (storage world_three_caches)) \<and>
           OLD_CACHE \<noteq> CACHE_NAME"
    by (simp add: caches_keys_def world_three_caches_def CACHE_NAME_def OLD_CACHE_def)
  note t = reclaim_leaves_current_only [OF h]
  have "OLD_CACHE \<notin> set (caches_keys (storage (snd (activate_handler net_up world_three_caches))))
      \<and> CACHE_NAME \<in> set (caches_keys (storage (snd (activate_handler net_up world_three_caches))))"
    using t k unfolding h snd_conv by blast
  with h k show ?thesis by blast
qed

text \<open>
  C7, as amended. During the reclaim every deletion is started whatever becomes of the
  others, so the caches left are exactly the current one and those whose deletion failed:
  a failed deletion does not keep another cache from being deleted. The handler itself
  does not catch the failure: its promise is rejected exactly when some deletion failed,
  it writes no error to the console, and \<open>clients.claim()\<close> is called only when the
  promise is fulfilled.
\<close>

theorem reclaim_partial:
  assumes "activate_handler e w = (p, w')"
  shows "storage w' =
           filter (\<lambda>nc. fst nc = CACHE_NAME \<or> \<not> delete_ok e (fst nc)) (storage w) \<and>
         (p = Rejected \<longleftrightarrow>
            (\<exists>g\<in>set (caches_keys (storage w)). g \<noteq> CACHE_NAME \<and> \<not> delete_ok e g)) \<and>
         console_errors w' = console_errors w \<and>
         clients_claimed w' = clients_claimed w + (if p = Fulfilled then 1 else 0)"
proof -
  from assms obtain ps w3 where
    d: "delete_old e (caches_keys (storage w))
          (emit CachesKeys (emit (ConsoleLog MsgActivate) w)) = (ps, w3)"
    and p: "p = promise_all ps"
    and w': "w' = (if p = Fulfilled then emit ClientsClaim w3 else w3)"
    by (rule activate_handler_unfold)
  have "storage w3 =
     filter (\<lambda>nc. \<not> (fst nc \<in> set (caches_keys (storage w)) \<and> fst nc \<noteq> CACHE_NAME \<and>
                      delete_ok e (fst nc))) (storage w)"
    using delete_old_storage [OF d] by simp
  also have "\<dots> = filter (\<lambda>nc. fst nc = CACHE_NAME \<or> \<not> delete_ok e (fst nc)) (storage w)"
    by (rule filter_cong) (auto simp: caches_keys_def)
  finally have st: "storage w' =
      filter (\<lambda>nc. fst nc = CACHE_NAME \<or> \<not> delete_ok e (fst nc)) (storage w)"
    using w' by simp
  have rej: "p = Rejected \<longleftrightarrow>
      (\<exists>g\<in>set (caches_keys (storage w)). g \<noteq> CACHE_NAME \<and> \<not> delete_ok e g)"
    using delete_old_settled [OF d] p by (cases p) auto
  have "console_errors w3 = console_errors w \<and> clients_claimed w3 = clients_claimed w"
    using delete_old_trace [OF d] by (simp add: console_errors_def clients_claimed_def)
  then have tr: "console_errors w' = console_errors w \<and>
      clients_claimed w' = clients_claimed w + (if p = Fulfilled then 1 else 0)"
    using w' by (simp add: console_errors_def clients_claimed_def)
  from st rej tr show ?thesis by simp
qed

text \<open>
  The amended C7 where the deletion of the old cache fails: the other cache is deleted all
  the same, the old cache stays, and the promise is rejected.
\<close>

theorem reclaim_partial_witness:
  "OLD_CACHE \<in> set (caches_keys (storage world_three_caches)) \<and> OLD_CACHE \<noteq> CACHE_NAME \<and>
   fst (activate_handler old_cache_locked world_three_caches) = Rejected \<and>
   caches_keys (storage (snd (activate_handler old_cache_locked world_three_caches)))
     = [OLD_CACHE, CACHE_NAME]"
proof -
  have k: "OLD_CACHE \<in> set (caches_keys (storage world_three_caches))"
    by (simp add: caches_keys_def world_three_caches_def)
  have n: "OLD_CACHE \<noteq> CACHE_NAME"
    by (simp add: CACHE_NAME_def OLD_CACHE_def)
  have l: "\<not> delete_ok old_cache_locked OLD_CACHE"
    by (simp add: old_cache_locked_def)
  note t = reclaim_partial [of old_cache_locked world_three_caches, OF surjective_pairing]
  have r: "fst (activate_handler old_cache_locked world_three_caches) = Rejected"
    using t k n l by blast
  have "storage (snd (activate_handler old_cache_locked world_three_caches)) =
          filter (\<lambda>nc. fst nc = CACHE_NAME \<or> \<not> delete_ok old_cache_locked (fst nc))
            (storage world_three_caches)"
    using t by blast
  then have "caches_keys (storage (snd (activate_handler old_cache_locked world_three_caches)))
     = [OLD_CACHE, CACHE_NAME]"
    by (simp add: caches_keys_def world_three_caches_def old_cache_locked_def
          CACHE_NAME_def OLD_CACHE_def OTHER_CACHE_def)
  with k n r show ?thesis by blast
qed

text \<open>
  C7 as stated fails: when the deletion of one old cache fails, the promise of the handler
  is rejected, no error line is written (the console holds only the lines written before
  each deletion) and \<open>clients.claim()\<close> is not called.
\<close>

theorem reclaim_failure_counterexample:
  "activate_handler old_cache_locked world_three_caches =
     (Rejected,
      \<lparr>storage = [(OLD_CACHE, [(''https://bananapass.example/logo.png'', resp_stale)]),
                  (CACHE_NAME, [(''https://bananapass.example/logo.png'', resp_ok)])],
       trace = [ConsoleLog MsgActivate, CachesKeys,
                ConsoleLog (MsgDeletingOld OLD_CACHE), CachesDelete OLD_CACHE,
                ConsoleLog (MsgDeletingOld OTHER_CACHE), CachesDelete OTHER_CACHE]\<rparr>) \<and>
   console_errors (snd (activate_handler old_cache_locked world_three_caches)) = 0 \<and>
   clients_claimed (snd (activate_handler old_cache_locked world_three_caches)) = 0"
  by (simp add: activate_handler_def caches_delete_def promise_all_def caches_keys_def
        emit_def Let_def world_three_caches_def old_cache_locked_def
        CACHE_NAME_def OLD_CACHE_def OTHER_CACHE_def console_errors_def clients_claimed_def)

section \<open>The install handler: claims\<close>

text \<open>
  C5, as amended. After a successful install, a lookup in the current cache by the locator
  of any manifest entry returns the response that the network gave for that entry, and its
  status is an ok status as \<open>cache.addAll\<close> demands it: from 200 to 299 and not 206.
\<close>

theorem install_records_ok_status:
  assumes "install_succeeded e w" and "u \<in> set URLS_TO_CACHE"
  shows "\<exists>r. store_lookup (storage (snd (install_handler e w))) CACHE_NAME u = Some r \<and>
             net e u = FetchResolved (Some r) \<and>
             200 \<le> status r \<and> status r \<le> 299 \<and> status r \<noteq> 206"
proof -
  obtain w1 where "populate e (emit (ConsoleLog MsgInstall) w) = (Fulfilled, w1)"
    using assms(1) by (cases "populate e (emit (ConsoleLog MsgInstall) w)")
      (simp add: install_succeeded_def)
  from populate_fulfilled [OF this assms(2)] this show ?thesis
    by (auto simp: install_handler_storage addAll_accepts_def)
qed

text \<open>
  The hypotheses of the amended C5 hold on a network that answers every locator with
  status 200: the install succeeds and the logo is in the current cache.
\<close>

theorem install_records_ok_status_witness:
  "install_succeeded net_up world0 \<and> ''/logo.png'' \<in> set URLS_TO_CACHE \<and>
   store_lookup (storage (snd (install_handler net_up world0))) CACHE_NAME ''/logo.png''
     = Some resp_ok"
proof -
  have h1: "install_succeeded net_up world0"
    by (simp add: install_succeeded_def populate_def cache_addAll_def URLS_TO_CACHE_def
          net_up_def resp_ok_def addAll_accepts_def Let_def)
  have h2: "''/logo.png'' \<in> set URLS_TO_CACHE"
    by (simp add: URLS_TO_CACHE_def)
  have n: "net net_up ''/logo.png'' = FetchResolved (Some resp_ok)"
    by (simp add: net_up_def)
  from install_records_ok_status [OF h1 h2] n
  have "store_lookup (storage (snd (install_handler net_up world0))) CACHE_NAME ''/logo.png''
     = Some resp_ok"
    by auto
  with h1 h2 show ?thesis by blast
qed

text \<open>
  C5 as stated fails: when the network answers the manifest entries with status 203, the
  install succeeds and the lookup of a manifest entry returns a response whose status is
  not 200.
\<close>

theorem install_record_status_counterexample:
  "install_succeeded net_proxy world0 \<and> ''/logo.png'' \<in> set URLS_TO_CACHE \<and>
   store_lookup (storage (snd (install_handler net_proxy world0))) CACHE_NAME ''/logo.png''
     = Some resp_203 \<and>
   status resp_203 \<noteq> 200"
  by (simp add: install_succeeded_def install_handler_def populate_def cache_addAll_def
        caches_open_def emit_def caches_keys_def Let_def URLS_TO_CACHE_def net_proxy_def
        world0_def resp_203_def addAll_accepts_def store_lookup_def cache_of_def
        cache_match_def cache_put_def CACHE_NAME_def)

text \<open>
  C1 fails on the code. With one manifest entry unreachable, the population is rejected and
  nothing is stored, but the \<open>.catch\<close> at the end of the chain turns the rejection into
  a console line: the promise given to \<open>event.waitUntil\<close> is fulfilled, so the host is
  told that the install went well. Only \<open>skipWaiting\<close> is left out.
\<close>

theorem install_fulfilled_after_failed_precache:
  "net net_logo_down ''/logo.png'' = FetchRejected \<and> ''/logo.png'' \<in> set URLS_TO_CACHE \<and>
   \<not> install_succeeded net_logo_down world0 \<and>
   install_handler net_logo_down world0 =
     (Fulfilled,
      \<lparr>storage = [(CACHE_NAME, [])],
       trace = [ConsoleLog MsgInstall, CachesOpen CACHE_NAME, ConsoleLog MsgPrecaching,
                CacheAddAll CACHE_NAME URLS_TO_CACHE,
                Fetch ''/'', Fetch ''/index.html'', Fetch ''/logo.png'',
                Fetch ''/manifest.json'',
                Fetch ''/assets/images/hero-background.jpg'',
                Fetch ''/assets/images/blog-oaxaca.jpg'',
                Fetch ''/assets/images/placeholder-post.jpg'',
                ConsoleError MsgPrecacheFailed]\<rparr>)"
  by (simp add: install_succeeded_def install_handler_def populate_def cache_addAll_def
        caches_open_def emit_def caches_keys_def Let_def URLS_TO_CACHE_def
        net_logo_down_def world0_def resp_ok_def addAll_accepts_def)

section \<open>The eligibility gate of the fetch handler: claims\<close>

text \<open>
  C6. For every request that the host delivers and whose method is not GET or whose
  scheme is neither HTTP nor HTTPS, the handler returns without calling
  \<open>event.respondWith\<close>: it makes no cache lookup, no network call and no store write,
  starts nothing, and leaves the storage and the record of effects exactly as they were.
  The request goes the host's own way.
\<close>

theorem ineligible_request_not_intercepted:
  assumes "host_delivers req"
    and "rmethod req \<noteq> ''GET'' \<or> \<not> spec_http_scheme (url req)"
  shows "fetch_event e req w = (NotIntercepted, w, None) \<and>
         fetch_handler e req w = (NotIntercepted, w)"
proof -
  have gate: "rmethod req \<noteq> ''GET'' \<or> \<not> starts_with (url req) ''http''"
  proof (cases "rmethod req \<noteq> ''GET''")
    case True
    then show ?thesis by simp
  next
    case False
    with assms(2) have "\<not> spec_http_scheme (url req)" by simp
    with assms(1) have "\<not> starts_with (url_scheme (url req)) ''http''"
      by (simp add: host_delivers_def)
    then have "\<not> starts_with (url req) ''http''"
      using starts_with_scheme by blast
    then show ?thesis by simp
  qed
  show ?thesis
    using fetch_event_not_intercepted [OF gate] fetch_handler_not_intercepted [OF gate]
    by simp
qed

text \<open>
  The hypotheses of C6 hold for the POST of the specification's scenario and for a GET of
  a browser extension's file: neither is intercepted, whatever is cached.
\<close>

theorem ineligible_request_not_intercepted_witness:
  "host_delivers req_submit \<and> rmethod req_submit \<noteq> ''GET'' \<and>
   host_delivers req_extension \<and> \<not> spec_http_scheme (url req_extension) \<and>
   fetch_event net_up req_submit world_cached = (NotIntercepted, world_cached, None) \<and>
   fetch_event net_up req_extension world_cached = (NotIntercepted, world_cached, None)"
proof -
  have h1: "host_delivers req_submit"
    by (simp add: host_delivers_def req_submit_def spec_http_scheme_def url_scheme_def)
  have h2: "rmethod req_submit \<noteq> ''GET''"
    by (simp add: req_submit_def)
  have h3: "host_delivers req_extension"
    by (simp add: host_delivers_def req_extension_def url_scheme_def starts_with_def)
  have h4: "\<not> spec_http_scheme (url req_extension)"
    by (simp add: req_extension_def spec_http_scheme_def url_scheme_def)
  from h2 have g1: "rmethod req_submit \<noteq> ''GET'' \<or> \<not> spec_http_scheme (url req_submit)"
    by simp
  from h4 have g2: "rmethod req_extension \<noteq> ''GET'' \<or> \<not> spec_http_scheme (url req_extension)"
    by simp
  note t1 = ineligible_request_not_intercepted [OF h1 g1, of net_up world_cached]
  note t2 = ineligible_request_not_intercepted [OF h3 g2, of net_up world_cached]
  from h1 h2 h3 h4 t1 t2 show ?thesis by blast
qed

end
